theory Spec2Isabelle
  imports Main "HOL-Library.Word"
begin

section \<open>casschecker: frames, value encoders and the request/response exchange\<close>

text \<open>
  A shallow embedding of \<^verbatim>\<open>casschecker.py\<close>. Python integers are \<open>int\<close>, a
  \<^verbatim>\<open>bytes\<close> object is a list of 8-bit words, a \<^verbatim>\<open>str\<close> is the list of its
  Unicode code points. Every exception the program can raise is a value of \<open>error\<close>,
  and a function that may raise returns \<open>error + 'a\<close> with \<open>Inl\<close> for the exception.
\<close>

subsection \<open>Values\<close>

type_synonym byte = "8 word"
type_synonym bytes = "byte list"
type_synonym str = "nat list"

datatype error =
    StructError
  | ValueError
  | UnicodeEncodeError
  | UnicodeDecodeError
  | OSError

text \<open>A string literal of the source, as code points.\<close>

definition pystr :: "string \<Rightarrow> str" where
  "pystr s = map of_char s"

text \<open>\<^verbatim>\<open>x + y\<close> and \<^verbatim>\<open>f(x)\<close> where the operands may raise: the left one is evaluated first.\<close>

definition bind :: "error + 'a \<Rightarrow> ('a \<Rightarrow> error + 'b) \<Rightarrow> error + 'b" where
  "bind m f = (case m of Inl e \<Rightarrow> Inl e | Inr x \<Rightarrow> f x)"

definition cons_ok :: "'a \<Rightarrow> error + 'a list \<Rightarrow> error + 'a list" where
  "cons_ok x r = (case r of Inl e \<Rightarrow> Inl e | Inr xs \<Rightarrow> Inr (x # xs))"

subsection \<open>The struct module: network byte order, range-checked\<close>

text \<open>
  \<^verbatim>\<open>struct.pack('!B', v)\<close>, \<^verbatim>\<open>'!h'\<close> and \<^verbatim>\<open>'!i'\<close>: an argument outside the range of
  the format raises \<^verbatim>\<open>struct.error\<close>; nothing is ever wrapped or truncated.
\<close>

definition pack_B :: "int \<Rightarrow> error + bytes" where
  "pack_B v = (if 0 \<le> v \<and> v \<le> 255 then Inr [of_int v] else Inl StructError)"

definition pack_h :: "int \<Rightarrow> error + bytes" where
  "pack_h v =
     (if - 32768 \<le> v \<and> v \<le> 32767 then Inr [of_int (v div 256), of_int v]
      else Inl StructError)"

definition pack_i :: "int \<Rightarrow> error + bytes" where
  "pack_i v =
     (if - 2147483648 \<le> v \<and> v \<le> 2147483647
      then Inr [of_int (v div 16777216), of_int (v div 65536), of_int (v div 256), of_int v]
      else Inl StructError)"

text \<open>\<^verbatim>\<open>_HEADER_FORMAT = '!BBhBi'\<close>, packing.\<close>

definition pack_HEADER_FORMAT :: "int \<Rightarrow> int \<Rightarrow> int \<Rightarrow> int \<Rightarrow> int \<Rightarrow> error + bytes" where
  "pack_HEADER_FORMAT version flags stream opcode len =
     bind (pack_B version) (\<lambda>a.
     bind (pack_B flags) (\<lambda>b.
     bind (pack_h stream) (\<lambda>c.
     bind (pack_B opcode) (\<lambda>d.
     bind (pack_i len) (\<lambda>e.
     Inr (a @ b @ c @ d @ e))))))"

text \<open>Unpacking reads an unsigned big-endian number and reinterprets the sign bit.\<close>

definition unpack_h :: "byte \<Rightarrow> byte \<Rightarrow> int" where
  "unpack_h b0 b1 =
     (let u = 256 * uint b0 + uint b1 in if 32768 \<le> u then u - 65536 else u)"

definition unpack_i :: "bytes \<Rightarrow> error + int" where
  "unpack_i bs =
     (case bs of
        [b0, b1, b2, b3] \<Rightarrow>
          (let u = 16777216 * uint b0 + 65536 * uint b1 + 256 * uint b2 + uint b3
           in Inr (if 2147483648 \<le> u then u - 4294967296 else u))
      | _ \<Rightarrow> Inl StructError)"

text \<open>\<^verbatim>\<open>struct.unpack(_HEADER_FORMAT, header)\<close>: the buffer must hold exactly 9 bytes.\<close>

definition unpack_HEADER_FORMAT :: "bytes \<Rightarrow> error + (int \<times> int \<times> int \<times> int \<times> int)" where
  "unpack_HEADER_FORMAT header =
     (case header of
        [v, f, s0, s1, opc, l0, l1, l2, l3] \<Rightarrow>
          bind (unpack_i [l0, l1, l2, l3]) (\<lambda>len.
          Inr (uint v, uint f, unpack_h s0 s1, uint opc, len))
      | _ \<Rightarrow> Inl StructError)"

subsection \<open>UTF-8\<close>

text \<open>
  \<^verbatim>\<open>str.encode(encoding='utf-8')\<close>: one to four bytes per code point; a surrogate
  (U+D800 to U+DFFF) raises \<^verbatim>\<open>UnicodeEncodeError\<close>.
\<close>

definition utf8_char :: "nat \<Rightarrow> error + bytes" where
  "utf8_char c =
     (if c < 0x80 then Inr [of_nat c]
      else if c < 0x800 then Inr [of_nat (0xC0 + c div 64), of_nat (0x80 + c mod 64)]
      else if 0xD800 \<le> c \<and> c \<le> 0xDFFF then Inl UnicodeEncodeError
      else if c < 0x10000 then
        Inr [of_nat (0xE0 + c div 4096), of_nat (0x80 + c div 64 mod 64),
             of_nat (0x80 + c mod 64)]
      else if c < 0x110000 then
        Inr [of_nat (0xF0 + c div 262144), of_nat (0x80 + c div 4096 mod 64),
             of_nat (0x80 + c div 64 mod 64), of_nat (0x80 + c mod 64)]
      else Inl UnicodeEncodeError)"

fun encode_utf8 :: "str \<Rightarrow> error + bytes" where
  "encode_utf8 [] = Inr []"
| "encode_utf8 (c # cs) =
     bind (utf8_char c) (\<lambda>b. bind (encode_utf8 cs) (\<lambda>bs. Inr (b @ bs)))"

text \<open>
  \<^verbatim>\<open>bytes.decode(encoding='utf-8')\<close> is strict: a stray or missing continuation byte,
  an overlong form, a surrogate and a code point above U+10FFFF raise
  \<^verbatim>\<open>UnicodeDecodeError\<close>.
\<close>

definition is_cont :: "byte \<Rightarrow> bool" where
  "is_cont b = (0x80 \<le> unat b \<and> unat b < 0xC0)"

definition cont :: "byte \<Rightarrow> nat" where
  "cont b = unat b - 0x80"

fun decode_utf8 :: "bytes \<Rightarrow> error + str" where
  "decode_utf8 [] = Inr []"
| "decode_utf8 (b0 # bs) =
     (let x = unat b0 in
      if x < 0x80 then cons_ok x (decode_utf8 bs)
      else if 0xC0 \<le> x \<and> x < 0xE0 then
        (case bs of
           b1 # r \<Rightarrow>
             (let c = (x - 0xC0) * 64 + cont b1 in
              if is_cont b1 \<and> 0x80 \<le> c then cons_ok c (decode_utf8 r)
              else Inl UnicodeDecodeError)
         | _ \<Rightarrow> Inl UnicodeDecodeError)
      else if 0xE0 \<le> x \<and> x < 0xF0 then
        (case bs of
           b1 # b2 # r \<Rightarrow>
             (let c = (x - 0xE0) * 4096 + cont b1 * 64 + cont b2 in
              if is_cont b1 \<and> is_cont b2 \<and> 0x800 \<le> c \<and> (c < 0xD800 \<or> 0xDFFF < c)
              then cons_ok c (decode_utf8 r)
              else Inl UnicodeDecodeError)
         | _ \<Rightarrow> Inl UnicodeDecodeError)
      else if 0xF0 \<le> x \<and> x < 0xF8 then
        (case bs of
           b1 # b2 # b3 # r \<Rightarrow>
             (let c = (x - 0xF0) * 262144 + cont b1 * 4096 + cont b2 * 64 + cont b3 in
              if is_cont b1 \<and> is_cont b2 \<and> is_cont b3 \<and> 0x10000 \<le> c \<and> c < 0x110000
              then cons_ok c (decode_utf8 r)
              else Inl UnicodeDecodeError)
         | _ \<Rightarrow> Inl UnicodeDecodeError)
      else Inl UnicodeDecodeError)"

subsection \<open>Rendering integers\<close>

text \<open>\<^verbatim>\<open>str(n)\<close> and \<^verbatim>\<open>hex(n)\<close> of an integer: a minus sign, then the magnitude.\<close>

fun dec_digits :: "nat \<Rightarrow> str" where
  "dec_digits n = (if n < 10 then [48 + n] else dec_digits (n div 10) @ [48 + n mod 10])"

definition str_int :: "int \<Rightarrow> str" where
  "str_int n = (if n < 0 then pystr ''-'' @ dec_digits (nat (- n)) else dec_digits (nat n))"

definition hex_digit :: "nat \<Rightarrow> nat" where
  "hex_digit d = (if d < 10 then 48 + d else 87 + d)"

fun hex_digits :: "nat \<Rightarrow> str" where
  "hex_digits n =
     (if n < 16 then [hex_digit n] else hex_digits (n div 16) @ [hex_digit (n mod 16)])"

definition hex :: "int \<Rightarrow> str" where
  "hex n =
     (if n < 0 then pystr ''-0x'' @ hex_digits (nat (- n)) else pystr ''0x'' @ hex_digits (nat n))"

subsection \<open>OpCode\<close>

datatype OpCode = Startup | Register | Error | Ready | Result | Query

fun OpCode_value :: "OpCode \<Rightarrow> int" where
  "OpCode_value Startup = 0x01"
| "OpCode_value Register = 0x0b"
| "OpCode_value Error = 0x00"
| "OpCode_value Ready = 0x02"
| "OpCode_value Result = 0x08"
| "OpCode_value Query = 0x07"

text \<open>\<^verbatim>\<open>OpCode(v)\<close>, the lookup by value: \<^verbatim>\<open>ValueError\<close> when no member has the value.\<close>

definition OpCode_call :: "int \<Rightarrow> error + OpCode" where
  "OpCode_call v =
     (if v = 0x01 then Inr Startup
      else if v = 0x0b then Inr Register
      else if v = 0x00 then Inr Error
      else if v = 0x02 then Inr Ready
      else if v = 0x08 then Inr Result
      else if v = 0x07 then Inr Query
      else Inl ValueError)"

fun OpCode_str :: "OpCode \<Rightarrow> str" where
  "OpCode_str Startup = pystr ''OpCode.Startup''"
| "OpCode_str Register = pystr ''OpCode.Register''"
| "OpCode_str Error = pystr ''OpCode.Error''"
| "OpCode_str Ready = pystr ''OpCode.Ready''"
| "OpCode_str Result = pystr ''OpCode.Result''"
| "OpCode_str Query = pystr ''OpCode.Query''"

subsection \<open>Payload, Request, Response\<close>

text \<open>
  The six private attributes of \<^verbatim>\<open>Payload\<close>. They have read-only properties and no
  setter, so every payload of the program is a value of \<open>Payload_init\<close>.
\<close>

record Payload =
  version :: int
  flags :: int
  stream :: int
  opcode :: OpCode
  body :: bytes
  length' :: int

definition Payload_init :: "int \<Rightarrow> int \<Rightarrow> int \<Rightarrow> OpCode \<Rightarrow> bytes \<Rightarrow> Payload" where
  "Payload_init version_arg flags_arg stream_arg opcode_arg body_arg =
     \<lparr> version = version_arg, flags = flags_arg, stream = stream_arg, opcode = opcode_arg,
       body = body_arg, length' = int (length body_arg) \<rparr>"

text \<open>\<^verbatim>\<open>Payload.__bytes__\<close>\<close>

definition Payload_bytes :: "Payload \<Rightarrow> error + bytes" where
  "Payload_bytes self =
     bind (pack_HEADER_FORMAT (version self) (flags self) (stream self)
             (OpCode_value (opcode self)) (length' self))
       (\<lambda>header. Inr (header @ body self))"

text \<open>\<^verbatim>\<open>Payload.__str__\<close>; the first argument is \<^verbatim>\<open>type(self).__name__\<close>.\<close>

definition Payload_str :: "str \<Rightarrow> Payload \<Rightarrow> str" where
  "Payload_str name self =
     name @ pystr '':\<newline>  version: '' @ str_int (version self)
       @ pystr ''\<newline>  flags: '' @ str_int (flags self)
       @ pystr ''\<newline>  stream: '' @ str_int (stream self)
       @ pystr ''\<newline>  opcode: '' @ OpCode_str (opcode self)
       @ pystr ''\<newline>  length: '' @ str_int (length' self)"

text \<open>
  \<^verbatim>\<open>Request.__init__\<close>. The class attribute \<^verbatim>\<open>__current_stream\<close> is the state: it is
  read, and returned incremented. It is \<open>0\<close> when the process starts.
\<close>

definition Request_init :: "int \<Rightarrow> OpCode \<Rightarrow> bytes \<Rightarrow> Payload \<times> int" where
  "Request_init current_stream opcode_arg body_arg =
     (Payload_init 0x04 0x00 current_stream opcode_arg body_arg, current_stream + 1)"

text \<open>Requests constructed one after the other, each from the counter the last one left.\<close>

fun Request_seq :: "int \<Rightarrow> (OpCode \<times> bytes) list \<Rightarrow> Payload list \<times> int" where
  "Request_seq current_stream [] = ([], current_stream)"
| "Request_seq current_stream ((opc, b) # rest) =
     (let (r, cs) = Request_init current_stream opc b;
          (rs, cs') = Request_seq cs rest
      in (r # rs, cs'))"

text \<open>\<^verbatim>\<open>Response.__str__\<close>\<close>

definition Response_str :: "Payload \<Rightarrow> error + str" where
  "Response_str self =
     bind (if opcode self = Error then
             bind (unpack_i (take 4 (body self))) (\<lambda>code.
             bind (decode_utf8 (drop 6 (body self))) (\<lambda>message.
             Inr (pystr ''\<newline>  code: '' @ hex code @ pystr ''\<newline>  message: '' @ message)))
           else Inr [])
       (\<lambda>additional. Inr (Payload_str (pystr ''Response'') self @ additional))"

subsection \<open>Value encoders\<close>

definition byte_to_bytes :: "int \<Rightarrow> error + bytes" where
  "byte_to_bytes data = pack_B data"

definition short_to_bytes :: "int \<Rightarrow> error + bytes" where
  "short_to_bytes data = pack_h data"

definition int_to_bytes :: "int \<Rightarrow> error + bytes" where
  "int_to_bytes data = pack_i data"

definition shortstr_to_bytes :: "str \<Rightarrow> error + bytes" where
  "shortstr_to_bytes data =
     bind (encode_utf8 data) (\<lambda>data'.
     bind (short_to_bytes (int (length data'))) (\<lambda>prefix. Inr (prefix @ data')))"

definition longstr_to_bytes :: "str \<Rightarrow> error + bytes" where
  "longstr_to_bytes data =
     bind (encode_utf8 data) (\<lambda>data'.
     bind (int_to_bytes (int (length data'))) (\<lambda>prefix. Inr (prefix @ data')))"

text \<open>
  \<^verbatim>\<open>strstrmap_to_bytes\<close>. The dictionary is the list of its items in iteration
  (insertion) order; the list comprehension encodes each key, then its value.
\<close>

fun strstrmap_items :: "(str \<times> str) list \<Rightarrow> error + bytes" where
  "strstrmap_items [] = Inr []"
| "strstrmap_items ((k, v) # rest) =
     bind (shortstr_to_bytes k) (\<lambda>kb.
     bind (shortstr_to_bytes v) (\<lambda>vb.
     bind (strstrmap_items rest) (\<lambda>bs. Inr (kb @ vb @ bs))))"

definition strstrmap_to_bytes :: "(str \<times> str) list \<Rightarrow> error + bytes" where
  "strstrmap_to_bytes data =
     bind (short_to_bytes (int (length data))) (\<lambda>count.
     bind (strstrmap_items data) (\<lambda>items. Inr (count @ items)))"

text \<open>The first request of \<^verbatim>\<open>main\<close>: the Startup frame.\<close>

definition main_startup :: "int \<Rightarrow> error + (Payload \<times> int)" where
  "main_startup current_stream =
     bind (strstrmap_to_bytes [(pystr ''CQL_VERSION'', pystr ''3.0.0'')]) (\<lambda>b.
     Inr (Request_init current_stream Startup b))"

subsection \<open>The socket\<close>

text \<open>
  A connected stream socket, as far as \<^verbatim>\<open>send_request\<close> can observe it. The scripts
  say what the transport does at each call: \<^verbatim>\<open>send\<close> accepts a prefix of the data
  and returns its size, or raises; \<^verbatim>\<open>recv(n)\<close> returns at most \<open>n\<close> bytes of the
  chunk that has arrived, or raises. With the receive script used up the peer has
  closed the connection and \<^verbatim>\<open>recv\<close> returns \<^verbatim>\<open>b''\<close>. With the send script used up
  \<^verbatim>\<open>send\<close> accepts everything. \<^verbatim>\<open>recv\<close> with a negative size raises \<^verbatim>\<open>ValueError\<close>.
\<close>

datatype send_event = SendAccepts nat | SendRaises
datatype recv_event = RecvData bytes | RecvRaises

record socket =
  send_script :: "send_event list"
  recv_script :: "recv_event list"
  wire :: bytes

definition sock_send :: "socket \<Rightarrow> bytes \<Rightarrow> error + (nat \<times> socket)" where
  "sock_send sock data =
     (case send_script sock of
        [] \<Rightarrow> Inr (length data, sock\<lparr>wire := wire sock @ data\<rparr>)
      | SendRaises # es \<Rightarrow> Inl OSError
      | SendAccepts k # es \<Rightarrow>
          Inr (min k (length data),
               sock\<lparr>send_script := es, wire := wire sock @ take k data\<rparr>))"

definition sock_recv :: "socket \<Rightarrow> int \<Rightarrow> error + (bytes \<times> socket)" where
  "sock_recv sock bufsize =
     (if bufsize < 0 then Inl ValueError
      else case recv_script sock of
        [] \<Rightarrow> Inr ([], sock)
      | RecvRaises # es \<Rightarrow> Inl OSError
      | RecvData chunk # es \<Rightarrow>
          Inr (take (nat bufsize) chunk,
               sock\<lparr>recv_script :=
                 (if drop (nat bufsize) chunk = [] then es
                  else RecvData (drop (nat bufsize) chunk) # es)\<rparr>))"

subsection \<open>The exchange\<close>

text \<open>\<^verbatim>\<open>send_request\<close>: the response, and the socket as the calls left it.\<close>

definition send_request :: "socket \<Rightarrow> Payload \<Rightarrow> error + (Payload \<times> socket)" where
  "send_request sock payload =
     bind (Payload_bytes payload) (\<lambda>data.
     bind (sock_send sock data) (\<lambda>(n, sock1).
     bind (sock_recv sock1 9) (\<lambda>(header, sock2).
     bind (unpack_HEADER_FORMAT header) (\<lambda>(version', flags', stream', opecode, len).
     bind (OpCode_call opecode) (\<lambda>opecode'.
     bind (sock_recv sock2 len) (\<lambda>(body', sock3).
     Inr (Payload_init version' flags' stream' opecode' body', sock3)))))))"

subsection \<open>Reading a short string back\<close>

text \<open>
  Modelled from the spec: \<^verbatim>\<open>decodeShortString\<close>, the inverse of the short-string
  encoder that the round-trip property names; the program has no decoder. It reads the
  2-byte big-endian unsigned length prefix, then that many bytes, then decodes them as
  UTF-8. A buffer shorter than the prefix says is an error.
\<close>

definition decodeShortString :: "bytes \<Rightarrow> error + str" where
  "decodeShortString bs =
     (case bs of
        p0 # p1 # rest \<Rightarrow>
          (let n = 256 * unat p0 + unat p1 in
           if length rest < n then Inl StructError else decode_utf8 (take n rest))
      | _ \<Rightarrow> Inl StructError)"

section \<open>Properties\<close>

subsection \<open>Auxiliary facts\<close>

lemma bind_Inl [simp]: "bind (Inl e) f = Inl e"
  by (simp add: bind_def)

lemma bind_Inr [simp]: "bind (Inr x) f = f x"
  by (simp add: bind_def)

lemma cons_ok_Inr [simp]: "cons_ok x (Inr xs) = Inr (x # xs)"
  by (simp add: cons_ok_def)

lemma cons_ok_Inl [simp]: "cons_ok x (Inl e) = Inl e"
  by (simp add: cons_ok_def)

lemma uint_byte_of_int: "uint (of_int v :: byte) = v mod 256"
  by (simp add: uint_word_of_int)

lemma split16: "(v::int) mod 65536 = 256 * (v div 256 mod 256) + v mod 256"
  using zmod_zmult2_eq [of 256 v 256] by simp

lemma split24: "(v::int) mod 16777216 = 65536 * (v div 65536 mod 256) + v mod 65536"
  using zmod_zmult2_eq [of 256 v 65536] by simp

lemma split32: "(v::int) mod 4294967296 = 16777216 * (v div 16777216 mod 256) + v mod 16777216"
  using zmod_zmult2_eq [of 256 v 16777216] by simp

text \<open>Unpacking what was packed gives the number back: the sign survives the two's
  complement form.\<close>

lemma unpack_h_pack_h:
  assumes "- 32768 \<le> v" "v \<le> 32767"
  shows "unpack_h (of_int (v div 256)) (of_int v) = v"
proof -
  have u: "256 * uint (of_int (v div 256) :: byte) + uint (of_int v :: byte) = v mod 65536"
    by (simp add: uint_byte_of_int split16)
  show ?thesis
  proof (cases "0 \<le> v")
    case True
    with assms have "v mod 65536 = v" by simp
    with u True assms show ?thesis by (simp add: unpack_h_def Let_def)
  next
    case False
    with assms have "(v + 65536) mod 65536 = v + 65536"
      by (intro mod_pos_pos_trivial) simp_all
    then have "v mod 65536 = v + 65536" by simp
    with u False assms show ?thesis by (simp add: unpack_h_def Let_def)
  qed
qed

lemma unpack_i_pack_i:
  assumes "pack_i v = Inr bs"
  shows "unpack_i bs = Inr v"
proof -
  from assms have r: "- 2147483648 \<le> v" "v \<le> 2147483647"
    and bs: "bs = [of_int (v div 16777216), of_int (v div 65536), of_int (v div 256), of_int v]"
    by (auto simp: pack_i_def split: if_splits)
  have u: "16777216 * uint (of_int (v div 16777216) :: byte)
             + 65536 * uint (of_int (v div 65536) :: byte)
             + 256 * uint (of_int (v div 256) :: byte) + uint (of_int v :: byte)
           = v mod 4294967296"
    by (simp add: uint_byte_of_int split16 split24 split32)
  show ?thesis
  proof (cases "0 \<le> v")
    case True
    with r have "v mod 4294967296 = v" by simp
    with u True r show ?thesis by (simp add: unpack_i_def bs Let_def)
  next
    case False
    with r have "(v + 4294967296) mod 4294967296 = v + 4294967296"
      by (intro mod_pos_pos_trivial) simp_all
    then have "v mod 4294967296 = v + 4294967296" by simp
    with u False r show ?thesis by (simp add: unpack_i_def bs Let_def)
  qed
qed

subsection \<open>The Startup frame\<close>

text \<open>
  C2, as the program computes it. The first request of a session, a Startup with the
  string map \<^verbatim>\<open>{"CQL_VERSION": "3.0.0"}\<close>, serializes to the header
  \<^verbatim>\<open>04 00 00 00 01 00 00 00 16\<close> and the 22 body bytes
  \<^verbatim>\<open>00 01 00 0B 43 51 4C 5F 56 45 52 53 49 4F 4E 00 05 33 2E 30 2E 30\<close>:
  the length field is \<open>0x16 = 22\<close>, the size of that body.
\<close>

theorem startup_frame_bytes:
  "bind (main_startup 0) (\<lambda>(p, c). Payload_bytes p) =
     Inr ([0x04, 0x00, 0x00, 0x00, 0x01, 0x00, 0x00, 0x00, 0x16] @
          [0x00, 0x01, 0x00, 0x0B, 0x43, 0x51, 0x4C, 0x5F, 0x56, 0x45, 0x52, 0x53, 0x49, 0x4F,
           0x4E, 0x00, 0x05, 0x33, 0x2E, 0x30, 0x2E, 0x30])"
  by code_simp

text \<open>
  C2, as the specification words it, is false: the serialized frame is not the header
  \<^verbatim>\<open>04 00 00 00 01 00 00 00 1D\<close> followed by those body bytes.
\<close>

theorem startup_frame_bytes_counterexample:
  "bind (main_startup 0) (\<lambda>(p, c). Payload_bytes p) \<noteq>
     Inr ([0x04, 0x00, 0x00, 0x00, 0x01, 0x00, 0x00, 0x00, 0x1D] @
          [0x00, 0x01, 0x00, 0x0B, 0x43, 0x51, 0x4C, 0x5F, 0x56, 0x45, 0x52, 0x53, 0x49, 0x4F,
           0x4E, 0x00, 0x05, 0x33, 0x2E, 0x30, 0x2E, 0x30])"
  by code_simp

subsection \<open>Packing the header\<close>

lemma uint_byte_id: "0 \<le> v \<Longrightarrow> v \<le> 255 \<Longrightarrow> uint (of_int v :: byte) = v"
  by (simp add: uint_byte_of_int)

lemma OpCode_value_range: "0 \<le> OpCode_value opc \<and> OpCode_value opc \<le> 255"
  by (cases opc) simp_all

lemma pack_B_Inr: "0 \<le> v \<Longrightarrow> v \<le> 255 \<Longrightarrow> pack_B v = Inr [of_int v]"
  by (simp add: pack_B_def)

lemma pack_B_cases: "pack_B v = Inl StructError \<or> (\<exists>a. pack_B v = Inr a)"
  by (simp add: pack_B_def)

lemma pack_h_Inl: "v < - 32768 \<or> 32767 < v \<Longrightarrow> pack_h v = Inl StructError"
  by (auto simp: pack_h_def)

lemma pack_HEADER_FORMAT_stream_error:
  assumes "s < - 32768 \<or> 32767 < s"
  shows "pack_HEADER_FORMAT v f s opc len = Inl StructError"
proof -
  have h: "pack_h s = Inl StructError" using assms by (rule pack_h_Inl)
  show ?thesis
    using pack_B_cases [of v] pack_B_cases [of f]
    by (auto simp: pack_HEADER_FORMAT_def h)
qed

lemma pack_HEADER_FORMAT_ok:
  assumes "0 \<le> v" "v \<le> 255" "0 \<le> f" "f \<le> 255" "- 32768 \<le> s" "s \<le> 32767"
    "0 \<le> opc" "opc \<le> 255" "- 2147483648 \<le> len" "len \<le> 2147483647"
  shows "\<exists>h. pack_HEADER_FORMAT v f s opc len = Inr h \<and> length h = 9 \<and>
           unpack_HEADER_FORMAT h = Inr (v, f, s, opc, len)"
proof -
  obtain e where e: "pack_i len = Inr e" using assms by (simp add: pack_i_def)
  then have ue: "unpack_i e = Inr len" by (rule unpack_i_pack_i)
  from e assms obtain l0 l1 l2 l3 where el: "e = [l0, l1, l2, l3]"
    by (auto simp: pack_i_def)
  let ?h = "[of_int v, of_int f, of_int (s div 256), of_int s, of_int opc, l0, l1, l2, l3]"
  have p: "pack_HEADER_FORMAT v f s opc len = Inr ?h"
    using assms e el by (simp add: pack_HEADER_FORMAT_def pack_B_def pack_h_def)
  have u: "unpack_HEADER_FORMAT ?h = Inr (v, f, s, opc, len)"
    using assms ue el by (simp add: unpack_HEADER_FORMAT_def uint_byte_id unpack_h_pack_h)
  from p u show ?thesis by simp
qed

subsection \<open>The length invariant\<close>

text \<open>
  C1. The length field of every payload is the size of its body: \<^verbatim>\<open>__init__\<close> takes no
  length argument and stores \<^verbatim>\<open>len(body)\<close>. When the header fields fit their
  formats, \<^verbatim>\<open>bytes(payload)\<close> returns a 9-byte header followed by the body, and the
  header read back gives the fields, with \<^verbatim>\<open>len(body)\<close> as its length field.
\<close>

theorem payload_length_invariant:
  "length' (Payload_init v f s opc b) = int (length b) \<and>
   (0 \<le> v \<and> v \<le> 255 \<and> 0 \<le> f \<and> f \<le> 255 \<and> - 32768 \<le> s \<and> s \<le> 32767 \<and>
    length b \<le> 2147483647 \<longrightarrow>
      (\<exists>h. Payload_bytes (Payload_init v f s opc b) = Inr (h @ b) \<and> length h = 9 \<and>
           unpack_HEADER_FORMAT h = Inr (v, f, s, OpCode_value opc, int (length b))))"
proof (intro conjI impI)
  show "length' (Payload_init v f s opc b) = int (length b)"
    by (simp add: Payload_init_def)
next
  assume r: "0 \<le> v \<and> v \<le> 255 \<and> 0 \<le> f \<and> f \<le> 255 \<and> - 32768 \<le> s \<and> s \<le> 32767 \<and>
    length b \<le> 2147483647"
  then obtain h where h: "pack_HEADER_FORMAT v f s (OpCode_value opc) (int (length b)) = Inr h"
    "length h = 9"
    "unpack_HEADER_FORMAT h = Inr (v, f, s, OpCode_value opc, int (length b))"
    using pack_HEADER_FORMAT_ok [of v f s "OpCode_value opc" "int (length b)"]
      OpCode_value_range [of opc] by auto
  have "Payload_bytes (Payload_init v f s opc b) = Inr (h @ b)"
    by (simp add: Payload_bytes_def Payload_init_def h)
  with h show "\<exists>h. Payload_bytes (Payload_init v f s opc b) = Inr (h @ b) \<and> length h = 9 \<and>
           unpack_HEADER_FORMAT h = Inr (v, f, s, OpCode_value opc, int (length b))"
    by blast
qed

text \<open>A Query payload with a three-byte body.\<close>

theorem payload_length_invariant_witness:
  "length' (Payload_init 4 0 7 Query [1, 2, 3]) = 3 \<and>
   Payload_bytes (Payload_init 4 0 7 Query [1, 2, 3]) = Inr ([4, 0, 0, 7, 7, 0, 0, 0, 3] @ [1, 2, 3]) \<and>
   unpack_HEADER_FORMAT [4, 0, 0, 7, 7, 0, 0, 0, 3] = Inr (4, 0, 7, 7, 3)"
  using payload_length_invariant [of 4 0 7 Query "[1, 2, 3]"]
  by (simp add: Payload_init_def Payload_bytes_def pack_HEADER_FORMAT_def pack_B_def pack_h_def
      pack_i_def unpack_HEADER_FORMAT_def unpack_i_def unpack_h_def)

subsection \<open>Stream ids\<close>

lemma Request_seq_Cons:
  "Request_seq c ((opc, b) # rest) =
     (Payload_init 4 0 c opc b # fst (Request_seq (c + 1) rest), snd (Request_seq (c + 1) rest))"
  by (simp add: Request_init_def split: prod.splits)

lemma Request_seq_counter: "snd (Request_seq c reqs) = c + int (length reqs)"
proof (induction reqs arbitrary: c)
  case Nil
  show ?case by simp
next
  case (Cons r reqs)
  obtain opc b where r: "r = (opc, b)" by (cases r)
  from Cons [of "c + 1"] show ?case
    unfolding r Request_seq_Cons by simp
qed

lemma upt_shift: "map (\<lambda>i. c + int i) [0..<Suc n] = c # map (\<lambda>i. (c + 1) + int i) [0..<n]"
proof -
  have "[0..<Suc n] = 0 # map Suc [0..<n]"
    by (simp add: upt_conv_Cons map_Suc_upt del: upt_Suc)
  then show ?thesis
    by (simp add: comp_def add.assoc del: upt_Suc)
qed

lemma Request_seq_stream:
  "map stream (fst (Request_seq c reqs)) = map (\<lambda>i. c + int i) [0..<length reqs]"
proof (induction reqs arbitrary: c)
  case Nil
  show ?case by simp
next
  case (Cons r reqs)
  obtain opc b where r: "r = (opc, b)" by (cases r)
  have "stream (Payload_init 4 0 c opc b) = c" by (simp add: Payload_init_def)
  with Cons [of "c + 1"] show ?case
    unfolding r Request_seq_Cons length_Cons upt_shift by simp
qed

lemma Request_seq_fixed:
  "map version (fst (Request_seq c reqs)) = replicate (length reqs) 4 \<and>
   map flags (fst (Request_seq c reqs)) = replicate (length reqs) 0 \<and>
   map opcode (fst (Request_seq c reqs)) = map fst reqs \<and>
   map body (fst (Request_seq c reqs)) = map snd reqs"
proof (induction reqs arbitrary: c)
  case Nil
  show ?case by simp
next
  case (Cons r reqs)
  obtain opc b where r: "r = (opc, b)" by (cases r)
  from Cons [of "c + 1"] show ?case
    unfolding r Request_seq_Cons by (simp add: Payload_init_def)
qed

text \<open>
  C5. The requests constructed one after the other from a fresh process carry the stream
  ids \<open>0, 1, \<dots>, N - 1\<close> in construction order, each one once, and leave the counter at
  \<open>N\<close>; each has version \<open>0x04\<close> and flags \<open>0x00\<close>, and the opcode and body it was
  given.
\<close>

theorem request_stream_ids:
  "map stream (fst (Request_seq 0 reqs)) = map int [0..<length reqs] \<and>
   distinct (map stream (fst (Request_seq 0 reqs))) \<and>
   snd (Request_seq 0 reqs) = int (length reqs) \<and>
   map version (fst (Request_seq 0 reqs)) = replicate (length reqs) 0x04 \<and>
   map flags (fst (Request_seq 0 reqs)) = replicate (length reqs) 0x00 \<and>
   map opcode (fst (Request_seq 0 reqs)) = map fst reqs \<and>
   map body (fst (Request_seq 0 reqs)) = map snd reqs"
proof -
  have s: "map stream (fst (Request_seq 0 reqs)) = map int [0..<length reqs]"
    by (simp add: Request_seq_stream)
  have "distinct (map int [0..<length reqs])"
    by (simp add: distinct_map inj_on_def)
  with s Request_seq_counter [of 0 reqs] Request_seq_fixed [of 0 reqs] show ?thesis
    by simp
qed

text \<open>
  C9. A payload whose stream lies outside the signed 16-bit range cannot be serialized:
  \<^verbatim>\<open>struct.pack\<close> raises, nothing is wrapped. So the request constructed after 32768
  others, which gets the stream id 32768, cannot be serialized.
\<close>

theorem stream_out_of_range:
  "(stream p < - 32768 \<or> 32767 < stream p \<longrightarrow> Payload_bytes p = Inl StructError) \<and>
   (length reqs = 32768 \<longrightarrow>
      Payload_bytes (fst (Request_init (snd (Request_seq 0 reqs)) opc b)) = Inl StructError)"
proof (intro conjI impI)
  assume "stream p < - 32768 \<or> 32767 < stream p"
  then show "Payload_bytes p = Inl StructError"
    by (simp add: Payload_bytes_def pack_HEADER_FORMAT_stream_error)
next
  assume "length reqs = 32768"
  then have "snd (Request_seq 0 reqs) = 32768"
    by (simp add: Request_seq_counter)
  then show "Payload_bytes (fst (Request_init (snd (Request_seq 0 reqs)) opc b)) = Inl StructError"
    by (simp add: Payload_bytes_def Request_init_def Payload_init_def
        pack_HEADER_FORMAT_stream_error)
qed

text \<open>A stream of \<open>-32769\<close>, and the request after 32768 Query requests.\<close>

theorem stream_out_of_range_witness:
  "Payload_bytes (Payload_init 4 0 (- 32769) Query []) = Inl StructError \<and>
   Payload_bytes
     (fst (Request_init (snd (Request_seq 0 (replicate 32768 (Query, [])))) Query []))
     = Inl StructError"
  using stream_out_of_range [of "Payload_init 4 0 (- 32769) Query []"
      "replicate 32768 (Query, [])" Query "[]"]
  by (simp add: Payload_init_def)

subsection \<open>Decoding the header of a reply\<close>

lemma list9:
  assumes "length (h :: 'a list) = 9"
  shows "h = [h ! 0, h ! 1, h ! 2, h ! 3, h ! 4, h ! 5, h ! 6, h ! 7, h ! 8]"
  using assms by (auto simp: length_Suc_conv eval_nat_numeral)

lemma unpack_i_4: "\<exists>len. unpack_i [l0, l1, l2, l3] = Inr len"
  by (simp add: unpack_i_def Let_def)

lemma unpack_HEADER_FORMAT_9:
  assumes "length h = 9"
  shows "\<exists>len. unpack_HEADER_FORMAT h =
           Inr (uint (h ! 0), uint (h ! 1), unpack_h (h ! 2) (h ! 3), uint (h ! 4), len)"
proof -
  obtain len where "unpack_i [h ! 5, h ! 6, h ! 7, h ! 8] = Inr len"
    using unpack_i_4 by blast
  then have "unpack_HEADER_FORMAT [h ! 0, h ! 1, h ! 2, h ! 3, h ! 4, h ! 5, h ! 6, h ! 7, h ! 8]
      = Inr (uint (h ! 0), uint (h ! 1), unpack_h (h ! 2) (h ! 3), uint (h ! 4), len)"
    by (simp add: unpack_HEADER_FORMAT_def)
  with list9 [OF assms] show ?thesis by metis
qed

lemma unpack_HEADER_FORMAT_length:
  "unpack_HEADER_FORMAT h = Inr x \<Longrightarrow> length h = 9"
  by (auto simp: unpack_HEADER_FORMAT_def split: list.splits)

lemma unpack_HEADER_FORMAT_short:
  "length h \<noteq> 9 \<Longrightarrow> unpack_HEADER_FORMAT h = Inl StructError"
  by (auto simp: unpack_HEADER_FORMAT_def split: list.splits)

lemma OpCode_call_unknown:
  "v \<notin> {0x00, 0x01, 0x02, 0x07, 0x08, 0x0b} \<Longrightarrow> OpCode_call v = Inl ValueError"
  by (simp add: OpCode_call_def)

lemma OpCode_call_known:
  "v \<in> {0x00, 0x01, 0x02, 0x07, 0x08, 0x0b} \<Longrightarrow> \<exists>opc. OpCode_call v = Inr opc \<and> OpCode_value opc = v"
  by (auto simp: OpCode_call_def)

lemma OpCode_call_value: "OpCode_call (OpCode_value opc) = Inr opc"
  by (cases opc) (simp_all add: OpCode_call_def)

lemma OpCode_call_Inr: "OpCode_call v = Inr opc \<Longrightarrow> OpCode_value opc = v"
  by (auto simp: OpCode_call_def split: if_splits)

lemma bind_eq_Inr: "bind m f = Inr y \<longleftrightarrow> (\<exists>x. m = Inr x \<and> f x = Inr y)"
  by (cases m) simp_all

lemma sock_send_wire:
  "sock_send sock data = Inr (n, sock1) \<Longrightarrow>
     n \<le> length data \<and> wire sock1 = wire sock @ take n data \<and> recv_script sock1 = recv_script sock"
  by (auto simp: sock_send_def min_def split: list.splits send_event.splits)

lemma sock_recv_bound:
  "sock_recv sock k = Inr (bs, sock') \<Longrightarrow>
     0 \<le> k \<and> int (length bs) \<le> k \<and> wire sock' = wire sock"
  by (auto simp: sock_recv_def split: list.splits recv_event.splits if_splits)

text \<open>
  C6. A 9-byte header whose opcode byte is none of \<open>0x00, 0x01, 0x02, 0x07, 0x08, 0x0b\<close>
  does not decode: \<^verbatim>\<open>OpCode(opecode)\<close> raises \<^verbatim>\<open>ValueError\<close>, and \<^verbatim>\<open>send_request\<close>,
  having received such a header, raises it too and returns no response. A header whose
  opcode byte is in the set decodes to the member of \<open>OpCode\<close> with that value.
\<close>

theorem unknown_opcode_rejected:
  "(length h = 9 \<and> uint (h ! 4) \<notin> {0x00, 0x01, 0x02, 0x07, 0x08, 0x0b} \<longrightarrow>
      bind (unpack_HEADER_FORMAT h) (\<lambda>(v, f, s, opecode, len). OpCode_call opecode)
        = Inl ValueError \<and>
      (Payload_bytes payload = Inr data \<and> sock_send sock data = Inr (n, sock1) \<and>
       sock_recv sock1 9 = Inr (h, sock2) \<longrightarrow>
         send_request sock payload = Inl ValueError)) \<and>
   (length h = 9 \<and> uint (h ! 4) \<in> {0x00, 0x01, 0x02, 0x07, 0x08, 0x0b} \<longrightarrow>
      (\<exists>opc. bind (unpack_HEADER_FORMAT h) (\<lambda>(v, f, s, opecode, len). OpCode_call opecode)
               = Inr opc \<and> OpCode_value opc = uint (h ! 4)))"
proof (intro conjI impI)
  assume a: "length h = 9 \<and> uint (h ! 4) \<notin> {0x00, 0x01, 0x02, 0x07, 0x08, 0x0b}"
  then obtain len where u: "unpack_HEADER_FORMAT h =
      Inr (uint (h ! 0), uint (h ! 1), unpack_h (h ! 2) (h ! 3), uint (h ! 4), len)"
    using unpack_HEADER_FORMAT_9 by blast
  from a have o: "OpCode_call (uint (h ! 4)) = Inl ValueError"
    by (intro OpCode_call_unknown) simp
  show "bind (unpack_HEADER_FORMAT h) (\<lambda>(v, f, s, opecode, len). OpCode_call opecode)
        = Inl ValueError"
    by (simp add: u o)
  assume "Payload_bytes payload = Inr data \<and> sock_send sock data = Inr (n, sock1) \<and>
       sock_recv sock1 9 = Inr (h, sock2)"
  then show "send_request sock payload = Inl ValueError"
    by (simp add: send_request_def u o)
next
  assume a: "length h = 9 \<and> uint (h ! 4) \<in> {0x00, 0x01, 0x02, 0x07, 0x08, 0x0b}"
  then obtain len where u: "unpack_HEADER_FORMAT h =
      Inr (uint (h ! 0), uint (h ! 1), unpack_h (h ! 2) (h ! 3), uint (h ! 4), len)"
    using unpack_HEADER_FORMAT_9 by blast
  from a obtain opc where "OpCode_call (uint (h ! 4)) = Inr opc" "OpCode_value opc = uint (h ! 4)"
    using OpCode_call_known [of "uint (h ! 4)"] by blast
  then show "\<exists>opc. bind (unpack_HEADER_FORMAT h) (\<lambda>(v, f, s, opecode, len). OpCode_call opecode)
               = Inr opc \<and> OpCode_value opc = uint (h ! 4)"
    by (simp add: u)
qed

text \<open>A reply with opcode byte \<open>0x03\<close>, and a header with opcode byte \<open>0x08\<close>.\<close>

theorem unknown_opcode_rejected_witness:
  "send_request \<lparr>send_script = [], recv_script = [RecvData [0x84, 0, 0, 0, 0x03, 0, 0, 0, 0]],
                  wire = []\<rparr>
     (Payload_init 4 0 0 Query []) = Inl ValueError \<and>
   bind (unpack_HEADER_FORMAT [0x84, 0, 0, 0, 0x08, 0, 0, 0, 0])
     (\<lambda>(v, f, s, opecode, len). OpCode_call opecode) = Inr Result"
  using unknown_opcode_rejected [of "[0x84, 0, 0, 0, 0x03, 0, 0, 0, 0]"
      "Payload_init 4 0 0 Query []" "[4, 0, 0, 0, 7, 0, 0, 0, 0]"
      "\<lparr>send_script = [], recv_script = [RecvData [0x84, 0, 0, 0, 0x03, 0, 0, 0, 0]], wire = []\<rparr>"
      9
      "\<lparr>send_script = [], recv_script = [RecvData [0x84, 0, 0, 0, 0x03, 0, 0, 0, 0]],
        wire = [4, 0, 0, 0, 7, 0, 0, 0, 0]\<rparr>"
      "\<lparr>send_script = [], recv_script = [], wire = [4, 0, 0, 0, 7, 0, 0, 0, 0]\<rparr>"]
    unknown_opcode_rejected [of "[0x84, 0, 0, 0, 0x08, 0, 0, 0, 0]"]
  by (simp add: Payload_init_def Payload_bytes_def pack_HEADER_FORMAT_def pack_B_def pack_h_def
      pack_i_def sock_send_def sock_recv_def unpack_HEADER_FORMAT_def unpack_i_def unpack_h_def
      OpCode_call_def send_request_def)

subsection \<open>The exchange\<close>

text \<open>
  C7, as the specification words it, is false. Here the transport accepts 3 of the 9
  bytes of the request, and the peer sends a header that declares a body of 5 bytes,
  then 2 bytes, then closes: \<^verbatim>\<open>send_request\<close> returns a response with the 2-byte body,
  and only 3 bytes were written.
\<close>

theorem exchange_counterexample:
  "unpack_HEADER_FORMAT [0x84, 0, 0, 0, 0x02, 0, 0, 0, 5] = Inr (0x84, 0, 0, 0x02, 5) \<and>
   Payload_bytes (fst (Request_init 0 Query [])) = Inr [4, 0, 0, 0, 7, 0, 0, 0, 0] \<and>
   send_request
     \<lparr>send_script = [SendAccepts 3],
      recv_script = [RecvData [0x84, 0, 0, 0, 0x02, 0, 0, 0, 5], RecvData [1, 2]],
      wire = []\<rparr>
     (fst (Request_init 0 Query []))
   = Inr (\<lparr>version = 0x84, flags = 0, stream = 0, opcode = Ready, body = [1, 2], length' = 2\<rparr>,
          \<lparr>send_script = [], recv_script = [], wire = [4, 0, 0]\<rparr>)"
  by (simp add: Request_init_def Payload_init_def Payload_bytes_def pack_HEADER_FORMAT_def
      pack_B_def pack_h_def pack_i_def sock_send_def sock_recv_def unpack_HEADER_FORMAT_def
      unpack_i_def unpack_h_def OpCode_call_def send_request_def)

text \<open>
  C7, as the program behaves. \<^verbatim>\<open>send_request\<close> returns a response exactly when: the
  request serializes; the one call of \<^verbatim>\<open>send\<close> returns, having accepted some prefix of
  the data (its result is not looked at); the one call of \<^verbatim>\<open>recv(9)\<close> returns a buffer
  that unpacks as a header, so exactly 9 bytes, with a known opcode; and the one call of
  \<^verbatim>\<open>recv(length)\<close> returns. The body of the response is what that last call returned,
  at most the declared length and possibly less, and the length field of the response is
  the size of that body. When \<^verbatim>\<open>recv(9)\<close> returns a buffer that has not 9 bytes,
  \<^verbatim>\<open>struct.unpack\<close> raises \<^verbatim>\<open>struct.error\<close> and so does \<^verbatim>\<open>send_request\<close>; when it
  returns 9 bytes with an opcode byte that no member of \<open>OpCode\<close> has, \<^verbatim>\<open>send_request\<close>
  raises \<^verbatim>\<open>ValueError\<close>.
\<close>

theorem exchange_single_calls:
  "(send_request sock payload = Inr (resp, sock') \<longleftrightarrow>
     (\<exists>data n sock1 header sock2 v f s opc len.
        Payload_bytes payload = Inr data \<and>
        sock_send sock data = Inr (n, sock1) \<and>
        n \<le> length data \<and> wire sock' = wire sock @ take n data \<and>
        sock_recv sock1 9 = Inr (header, sock2) \<and>
        unpack_HEADER_FORMAT header = Inr (v, f, s, OpCode_value opc, len) \<and>
        sock_recv sock2 len = Inr (body resp, sock') \<and>
        int (length (body resp)) \<le> len \<and>
        resp = Payload_init v f s opc (body resp) \<and>
        length' resp = int (length (body resp)))) \<and>
   (Payload_bytes payload = Inr d \<and> sock_send sock d = Inr (m, s1) \<and>
    sock_recv s1 9 = Inr (h, s2) \<and> length h \<noteq> 9 \<longrightarrow>
      send_request sock payload = Inl StructError) \<and>
   (Payload_bytes payload = Inr d \<and> sock_send sock d = Inr (m, s1) \<and>
    sock_recv s1 9 = Inr (h, s2) \<and> length h = 9 \<and>
    uint (h ! 4) \<notin> {0x00, 0x01, 0x02, 0x07, 0x08, 0x0b} \<longrightarrow>
      send_request sock payload = Inl ValueError)"
  (is "(?L \<longleftrightarrow> ?R) \<and> ?S \<and> ?U")
proof (intro conjI)
  show "?L \<longleftrightarrow> ?R"
  proof
    assume ?L
    then obtain data n sock1 header sock2 v f s opecode len opc b where
      1: "Payload_bytes payload = Inr data" and
      2: "sock_send sock data = Inr (n, sock1)" and
      3: "sock_recv sock1 9 = Inr (header, sock2)" and
      4: "unpack_HEADER_FORMAT header = Inr (v, f, s, opecode, len)" and
      5: "OpCode_call opecode = Inr opc" and
      6: "sock_recv sock2 len = Inr (b, sock')" and
      7: "resp = Payload_init v f s opc b"
      by (auto simp: send_request_def bind_eq_Inr)
    from 7 have b: "body resp = b" and l: "length' resp = int (length (body resp))"
      by (simp_all add: Payload_init_def)
    from 5 have o: "OpCode_value opc = opecode" by (rule OpCode_call_Inr)
    have h4: "unpack_HEADER_FORMAT header = Inr (v, f, s, OpCode_value opc, len)"
      using 4 o by simp
    have h6: "sock_recv sock2 len = Inr (body resp, sock')"
      using 6 b by simp
    have h7: "resp = Payload_init v f s opc (body resp)"
      using 7 b by simp
    have w: "n \<le> length data" "wire sock' = wire sock @ take n data"
      using sock_send_wire [OF 2] sock_recv_bound [OF 3] sock_recv_bound [OF 6] by simp_all
    have k: "int (length (body resp)) \<le> len"
      using sock_recv_bound [OF h6] by simp
    from 1 2 3 h4 h6 h7 w k l show ?R by blast
  next
    assume ?R
    then obtain data n sock1 header sock2 v f s opc len where
      1: "Payload_bytes payload = Inr data" and
      2: "sock_send sock data = Inr (n, sock1)" and
      3: "sock_recv sock1 9 = Inr (header, sock2)" and
      4: "unpack_HEADER_FORMAT header = Inr (v, f, s, OpCode_value opc, len)" and
      6: "sock_recv sock2 len = Inr (body resp, sock')" and
      7: "resp = Payload_init v f s opc (body resp)"
      by blast
    have "send_request sock payload = Inr (Payload_init v f s opc (body resp), sock')"
      by (simp add: send_request_def 1 2 3 4 6 OpCode_call_value)
    with 7 show ?L by simp
  qed
next
  show ?S
  proof
    assume a: "Payload_bytes payload = Inr d \<and> sock_send sock d = Inr (m, s1) \<and>
      sock_recv s1 9 = Inr (h, s2) \<and> length h \<noteq> 9"
    then have "unpack_HEADER_FORMAT h = Inl StructError"
      by (intro unpack_HEADER_FORMAT_short) simp
    with a show "send_request sock payload = Inl StructError"
      by (simp add: send_request_def)
  qed
next
  show ?U
  proof
    assume a: "Payload_bytes payload = Inr d \<and> sock_send sock d = Inr (m, s1) \<and>
      sock_recv s1 9 = Inr (h, s2) \<and> length h = 9 \<and>
      uint (h ! 4) \<notin> {0x00, 0x01, 0x02, 0x07, 0x08, 0x0b}"
    then obtain len where u: "unpack_HEADER_FORMAT h =
        Inr (uint (h ! 0), uint (h ! 1), unpack_h (h ! 2) (h ! 3), uint (h ! 4), len)"
      using unpack_HEADER_FORMAT_9 by blast
    from a have o: "OpCode_call (uint (h ! 4)) = Inl ValueError"
      by (intro OpCode_call_unknown) simp
    from a show "send_request sock payload = Inl ValueError"
      by (simp add: send_request_def u o)
  qed
qed

text \<open>
  A peer that closes after 5 bytes of the header, and a peer that answers with the
  opcode byte \<open>0x05\<close>; in both the transport accepted 3 bytes of the request.
\<close>

theorem exchange_single_calls_witness:
  "send_request
     \<lparr>send_script = [SendAccepts 3], recv_script = [RecvData [0x84, 0, 0, 0, 0x02]], wire = []\<rparr>
     (Payload_init 4 0 0 Query []) = Inl StructError \<and>
   send_request
     \<lparr>send_script = [SendAccepts 3], recv_script = [RecvData [0x84, 0, 0, 0, 0x05, 0, 0, 0, 0]],
      wire = []\<rparr>
     (Payload_init 4 0 0 Query []) = Inl ValueError"
  using exchange_single_calls [THEN conjunct2, THEN conjunct1,
      of "Payload_init 4 0 0 Query []" "[4, 0, 0, 0, 7, 0, 0, 0, 0]"
      "\<lparr>send_script = [SendAccepts 3], recv_script = [RecvData [0x84, 0, 0, 0, 0x02]], wire = []\<rparr>"
      3
      "\<lparr>send_script = [], recv_script = [RecvData [0x84, 0, 0, 0, 0x02]], wire = [4, 0, 0]\<rparr>"
      "[0x84, 0, 0, 0, 0x02]"
      "\<lparr>send_script = [], recv_script = [], wire = [4, 0, 0]\<rparr>"]
    exchange_single_calls [THEN conjunct2, THEN conjunct2,
      of "Payload_init 4 0 0 Query []" "[4, 0, 0, 0, 7, 0, 0, 0, 0]"
      "\<lparr>send_script = [SendAccepts 3], recv_script = [RecvData [0x84, 0, 0, 0, 0x05, 0, 0, 0, 0]],
        wire = []\<rparr>"
      3
      "\<lparr>send_script = [], recv_script = [RecvData [0x84, 0, 0, 0, 0x05, 0, 0, 0, 0]],
        wire = [4, 0, 0]\<rparr>"
      "[0x84, 0, 0, 0, 0x05, 0, 0, 0, 0]"
      "\<lparr>send_script = [], recv_script = [], wire = [4, 0, 0]\<rparr>"]
  by (simp add: Payload_init_def Payload_bytes_def pack_HEADER_FORMAT_def pack_B_def pack_h_def
      pack_i_def sock_send_def sock_recv_def)

subsection \<open>Displaying an Error response\<close>

lemma Payload_str_update:
  "Payload_str name (Payload_init v f s opc (b[i := x, j := y])) =
   Payload_str name (Payload_init v f s opc b)"
  by (simp add: Payload_str_def Payload_init_def)

text \<open>
  C10. The display of an Error response does not depend on the bytes at offsets 4 and 5
  of the body: a body that differs from another in these two bytes only is displayed
  alike, whether the display succeeds or raises. When the first four bytes unpack and
  the bytes from offset 6 onwards decode as UTF-8, the message displayed is that
  decoding, whatever the length prefix says.
\<close>

theorem error_message_ignores_prefix:
  "Response_str (Payload_init v f s Error (b[4 := p0, 5 := p1])) =
     Response_str (Payload_init v f s Error b) \<and>
   (unpack_i (take 4 b) = Inr code \<and> decode_utf8 (drop 6 b) = Inr message \<longrightarrow>
      Response_str (Payload_init v f s Error b) =
        Inr (Payload_str (pystr ''Response'') (Payload_init v f s Error b)
             @ pystr ''\<newline>  code: '' @ hex code @ pystr ''\<newline>  message: '' @ message))"
proof (intro conjI impI)
  have t: "take 4 (b[4 := p0, 5 := p1]) = take 4 b"
    by simp
  have d: "drop 6 (b[4 := p0, 5 := p1]) = drop 6 b"
    by simp
  have i: "opcode (Payload_init v f s Error c) = Error" "body (Payload_init v f s Error c) = c" for c
    by (simp_all add: Payload_init_def)
  show "Response_str (Payload_init v f s Error (b[4 := p0, 5 := p1])) =
     Response_str (Payload_init v f s Error b)"
    unfolding Response_str_def i t d Payload_str_update ..
  assume "unpack_i (take 4 b) = Inr code \<and> decode_utf8 (drop 6 b) = Inr message"
  then show "Response_str (Payload_init v f s Error b) =
        Inr (Payload_str (pystr ''Response'') (Payload_init v f s Error b)
             @ pystr ''\<newline>  code: '' @ hex code @ pystr ''\<newline>  message: '' @ message)"
    unfolding Response_str_def i by simp
qed

text \<open>The prefix \<^verbatim>\<open>FF FF\<close> before a 12-byte message displays as \<^verbatim>\<open>00 0C\<close> does.\<close>

theorem error_message_ignores_prefix_witness:
  "Response_str (Payload_init 0x84 0 0 Error
     [0x00, 0x00, 0x22, 0x00, 0xFF, 0xFF,
      0x53, 0x79, 0x6E, 0x74, 0x61, 0x78, 0x20, 0x65, 0x72, 0x72, 0x6F, 0x72]) =
   Inr (Payload_str (pystr ''Response'') (Payload_init 0x84 0 0 Error
     [0x00, 0x00, 0x22, 0x00, 0x00, 0x0C,
      0x53, 0x79, 0x6E, 0x74, 0x61, 0x78, 0x20, 0x65, 0x72, 0x72, 0x6F, 0x72])
     @ pystr ''\<newline>  code: '' @ hex 0x2200 @ pystr ''\<newline>  message: '' @ pystr ''Syntax error'')"
proof -
  let ?b = "[0x00, 0x00, 0x22, 0x00, 0x00, 0x0C,
      0x53, 0x79, 0x6E, 0x74, 0x61, 0x78, 0x20, 0x65, 0x72, 0x72, 0x6F, 0x72] :: bytes"
  have u: "unpack_i (take 4 ?b) = Inr 0x2200"
    by (simp add: unpack_i_def)
  have d: "decode_utf8 (drop 6 ?b) = Inr (pystr ''Syntax error'')"
    by (simp add: pystr_def)
  have l: "?b[4 := 0xFF, 5 := 0xFF] = [0x00, 0x00, 0x22, 0x00, 0xFF, 0xFF,
      0x53, 0x79, 0x6E, 0x74, 0x61, 0x78, 0x20, 0x65, 0x72, 0x72, 0x6F, 0x72]"
    by simp
  from error_message_ignores_prefix [of "0x84" 0 0 ?b "0xFF" "0xFF" "0x2200" "pystr ''Syntax error''"]
    u d l show ?thesis by simp
qed

subsection \<open>UTF-8: decoding what was encoded\<close>

text \<open>How the decoder reads one code point, by the number of its bytes.\<close>

lemma unat_byte: "n < 256 \<Longrightarrow> unat (of_nat n :: byte) = n"
  by (simp add: unat_of_nat)

lemma dec1:
  "unat b0 < 128 \<Longrightarrow> decode_utf8 (b0 # rest) = cons_ok (unat b0) (decode_utf8 rest)"
  by simp

lemma dec2:
  assumes "unat b0 = 192 + h" "h < 32" "unat b1 = 128 + l" "l < 64" "128 \<le> h * 64 + l"
  shows "decode_utf8 (b0 # b1 # rest) = cons_ok (h * 64 + l) (decode_utf8 rest)"
  using assms by (simp add: is_cont_def cont_def)

lemma dec3:
  assumes "unat b0 = 224 + h" "h < 16" "unat b1 = 128 + m" "m < 64" "unat b2 = 128 + l" "l < 64"
    "2048 \<le> h * 4096 + m * 64 + l"
    "h * 4096 + m * 64 + l < 55296 \<or> 57343 < h * 4096 + m * 64 + l"
  shows "decode_utf8 (b0 # b1 # b2 # rest) = cons_ok (h * 4096 + m * 64 + l) (decode_utf8 rest)"
  using assms by (simp add: is_cont_def cont_def)

lemma dec4:
  assumes "unat b0 = 240 + h" "h < 8" "unat b1 = 128 + k" "k < 64" "unat b2 = 128 + m" "m < 64"
    "unat b3 = 128 + l" "l < 64"
    "65536 \<le> h * 262144 + k * 4096 + m * 64 + l"
    "h * 262144 + k * 4096 + m * 64 + l < 1114112"
  shows "decode_utf8 (b0 # b1 # b2 # b3 # rest)
           = cons_ok (h * 262144 + k * 4096 + m * 64 + l) (decode_utf8 rest)"
  using assms by (simp add: is_cont_def cont_def)

lemma unat_byte_add: "m < 128 \<Longrightarrow> unat (of_nat (128 + m) :: byte) = 128 + m"
  by (rule unat_byte) arith

text \<open>A code point is the sum of its base-64 digits.\<close>

lemma split_64_2: "(c::nat) div 64 * 64 + c mod 64 = c"
  by simp

lemma split_64_3: "(c::nat) div 4096 * 4096 + c div 64 mod 64 * 64 + c mod 64 = c"
proof -
  have a: "c div 4096 = c div 64 div 64" by (simp add: div_mult2_eq)
  have b: "c div 64 div 64 * 64 + c div 64 mod 64 = c div 64" by simp
  have e: "c div 64 * 64 + c mod 64 = c" by simp
  from b e show ?thesis unfolding a by linarith
qed

lemma split_64_4:
  "(c::nat) div 262144 * 262144 + c div 4096 mod 64 * 4096 + c div 64 mod 64 * 64 + c mod 64 = c"
proof -
  have a: "c div 4096 = c div 64 div 64" "c div 262144 = c div 64 div 64 div 64"
    by (simp_all add: div_mult2_eq)
  have b: "c div 64 div 64 * 64 + c div 64 mod 64 = c div 64" by simp
  have d: "c div 64 div 64 div 64 * 64 + c div 64 div 64 mod 64 = c div 64 div 64" by simp
  have e: "c div 64 * 64 + c mod 64 = c" by simp
  from b d e show ?thesis unfolding a by linarith
qed

text \<open>The decoder reads back each form the encoder writes.\<close>

lemma unat_cont: "unat (of_nat (128 + c mod 64) :: byte) = 128 + c mod 64"
proof (rule unat_byte)
  have "c mod 64 < 64" by simp
  then show "128 + c mod 64 < 256" by linarith
qed

lemma utf8_1:
  assumes "c < 128"
  shows "decode_utf8 (of_nat c # rest) = cons_ok c (decode_utf8 rest)"
proof -
  have u: "unat (of_nat c :: byte) = c"
    by (rule unat_byte) (use assms in linarith)
  have "unat (of_nat c :: byte) < 128" unfolding u by (rule assms)
  from dec1 [OF this] show ?thesis unfolding u .
qed

lemma utf8_2:
  assumes "128 \<le> c" "c < 2048"
  shows "decode_utf8 (of_nat (192 + c div 64) # of_nat (128 + c mod 64) # rest)
           = cons_ok c (decode_utf8 rest)"
proof -
  have d: "c div 64 < 32"
    by (rule less_mult_imp_div_less) (use assms in simp)
  have x: "unat (of_nat (192 + c div 64) :: byte) = 192 + c div 64"
    by (rule unat_byte) (use d in linarith)
  have m: "c mod 64 < 64" by simp
  have g: "128 \<le> c div 64 * 64 + c mod 64"
    unfolding split_64_2 by (rule assms)
  show ?thesis using dec2 [OF x d unat_cont m g] unfolding split_64_2 .
qed

lemma utf8_3:
  assumes "2048 \<le> c" "c < 65536" "c < 55296 \<or> 57343 < c"
  shows "decode_utf8 (of_nat (224 + c div 4096) # of_nat (128 + c div 64 mod 64)
            # of_nat (128 + c mod 64) # rest)
           = cons_ok c (decode_utf8 rest)"
proof -
  have d: "c div 4096 < 16"
    by (rule less_mult_imp_div_less) (use assms in simp)
  have x: "unat (of_nat (224 + c div 4096) :: byte) = 224 + c div 4096"
    by (rule unat_byte) (use d in linarith)
  have m: "c mod 64 < 64" and m1: "c div 64 mod 64 < 64" by simp_all
  have g: "2048 \<le> c div 4096 * 4096 + c div 64 mod 64 * 64 + c mod 64"
    unfolding split_64_3 by (rule assms)
  have s: "c div 4096 * 4096 + c div 64 mod 64 * 64 + c mod 64 < 55296
      \<or> 57343 < c div 4096 * 4096 + c div 64 mod 64 * 64 + c mod 64"
    unfolding split_64_3 by (rule assms)
  show ?thesis using dec3 [OF x d unat_cont m1 unat_cont m g s] unfolding split_64_3 .
qed

lemma utf8_4:
  assumes "65536 \<le> c" "c < 1114112"
  shows "decode_utf8 (of_nat (240 + c div 262144) # of_nat (128 + c div 4096 mod 64)
            # of_nat (128 + c div 64 mod 64) # of_nat (128 + c mod 64) # rest)
           = cons_ok c (decode_utf8 rest)"
proof -
  have d: "c div 262144 < 8"
    by (rule less_mult_imp_div_less) (use assms in simp)
  have x: "unat (of_nat (240 + c div 262144) :: byte) = 240 + c div 262144"
    by (rule unat_byte) (use d in linarith)
  have m: "c mod 64 < 64" and m1: "c div 64 mod 64 < 64" and m2: "c div 4096 mod 64 < 64"
    by simp_all
  have g: "65536 \<le> c div 262144 * 262144 + c div 4096 mod 64 * 4096 + c div 64 mod 64 * 64
      + c mod 64"
    unfolding split_64_4 by (rule assms)
  have s: "c div 262144 * 262144 + c div 4096 mod 64 * 4096 + c div 64 mod 64 * 64
      + c mod 64 < 1114112"
    unfolding split_64_4 by (rule assms)
  show ?thesis
    using dec4 [OF x d unat_cont m2 unat_cont m1 unat_cont m g s] unfolding split_64_4 .
qed

lemma decode_utf8_char:
  assumes "utf8_char c = Inr cb"
  shows "decode_utf8 (cb @ rest) = cons_ok c (decode_utf8 rest)"
proof -
  consider "c < 128" | "128 \<le> c" "c < 2048"
    | "2048 \<le> c" "c < 65536" "c < 55296 \<or> 57343 < c"
    | "65536 \<le> c" "c < 1114112"
    | "55296 \<le> c" "c \<le> 57343" | "1114112 \<le> c"
    by linarith
  then show ?thesis
  proof cases
    case 1
    then have "utf8_char c = Inr [of_nat c]"
      by (simp add: utf8_char_def)
    with assms have cb: "cb = [of_nat c]" by simp
    show ?thesis unfolding cb append_Cons append_Nil by (rule utf8_1 [OF 1])
  next
    case 2
    then have "utf8_char c = Inr [of_nat (192 + c div 64), of_nat (128 + c mod 64)]"
      by (simp add: utf8_char_def del: of_nat_add)
    with assms have cb: "cb = [of_nat (192 + c div 64), of_nat (128 + c mod 64)]"
      by (simp del: of_nat_add)
    show ?thesis unfolding cb append_Cons append_Nil by (rule utf8_2 [OF 2])
  next
    case 3
    then have "utf8_char c = Inr [of_nat (224 + c div 4096), of_nat (128 + c div 64 mod 64),
        of_nat (128 + c mod 64)]"
      by (auto simp add: utf8_char_def simp del: of_nat_add)
    with assms have cb: "cb = [of_nat (224 + c div 4096), of_nat (128 + c div 64 mod 64),
        of_nat (128 + c mod 64)]"
      by (simp del: of_nat_add)
    show ?thesis unfolding cb append_Cons append_Nil by (rule utf8_3 [OF 3])
  next
    case 4
    then have "utf8_char c = Inr [of_nat (240 + c div 262144), of_nat (128 + c div 4096 mod 64),
        of_nat (128 + c div 64 mod 64), of_nat (128 + c mod 64)]"
      by (simp add: utf8_char_def del: of_nat_add)
    with assms have cb: "cb = [of_nat (240 + c div 262144), of_nat (128 + c div 4096 mod 64),
        of_nat (128 + c div 64 mod 64), of_nat (128 + c mod 64)]"
      by (simp del: of_nat_add)
    show ?thesis unfolding cb append_Cons append_Nil by (rule utf8_4 [OF 4])
  next
    case 5
    with assms show ?thesis by (simp add: utf8_char_def)
  next
    case 6
    with assms show ?thesis by (simp add: utf8_char_def)
  qed
qed

lemma decode_encode_utf8:
  "encode_utf8 s = Inr bs \<Longrightarrow> decode_utf8 bs = Inr s"
proof (induction s arbitrary: bs)
  case Nil
  then show ?case by simp
next
  case (Cons c s)
  from Cons.prems obtain cb bs' where
    cb: "utf8_char c = Inr cb" and bs': "encode_utf8 s = Inr bs'" and bs: "bs = cb @ bs'"
    by (auto simp: bind_eq_Inr)
  have "decode_utf8 (cb @ bs') = cons_ok c (decode_utf8 bs')"
    by (rule decode_utf8_char [OF cb])
  also have "\<dots> = Inr (c # s)"
    unfolding Cons.IH [OF bs'] by simp
  finally show ?case unfolding bs .
qed

lemma encode_utf8_ascii:
  "a < 128 \<Longrightarrow> encode_utf8 (replicate n a) = Inr (replicate n (of_nat a))"
  by (induction n) (simp_all add: utf8_char_def)

subsection \<open>Short strings\<close>

lemma short_prefix:
  assumes "n \<le> 32767"
  shows "\<exists>p0 p1. short_to_bytes (int n) = Inr [p0, p1] \<and> 256 * unat p0 + unat p1 = n"
proof -
  let ?p0 = "of_nat (n div 256) :: byte" and ?p1 = "of_nat n :: byte"
  have "int n div 256 = int (n div 256)" by (simp add: zdiv_int)
  then have e: "(of_int (int n div 256) :: byte) = ?p0" "(of_int (int n) :: byte) = ?p1"
    by (simp_all only: of_int_of_nat_eq)
  have p: "short_to_bytes (int n) = Inr [?p0, ?p1]"
    using assms unfolding short_to_bytes_def pack_h_def e by simp
  have d: "n div 256 < 256"
    by (rule less_mult_imp_div_less) (use assms in simp)
  have u0: "unat ?p0 = n div 256" by (rule unat_byte [OF d])
  have u1: "unat ?p1 = n mod 256" by (simp add: unat_of_nat)
  have "256 * unat ?p0 + unat ?p1 = n" unfolding u0 u1 by simp
  with p show ?thesis by blast
qed

lemma short_to_bytes_overflow: "32767 < n \<Longrightarrow> short_to_bytes (int n) = Inl StructError"
  by (simp add: short_to_bytes_def pack_h_def)

text \<open>
  C3, as the specification words it, is false: a string of 32768 letters \<^verbatim>\<open>a\<close> has a
  UTF-8 encoding of 32768 bytes, which is not more than 65535, and the encoder fails on
  it.
\<close>

theorem shortstr_to_bytes_limit_counterexample:
  "encode_utf8 (replicate 32768 0x61) = Inr (replicate 32768 0x61) \<and>
   length (replicate 32768 (0x61 :: byte)) = 32768 \<and>
   shortstr_to_bytes (replicate 32768 0x61) = Inl StructError"
proof -
  have b: "encode_utf8 (replicate 32768 0x61) = Inr (replicate 32768 0x61)"
    using encode_utf8_ascii [of "0x61" 32768] by simp
  then show ?thesis
    by (simp add: shortstr_to_bytes_def short_to_bytes_def pack_h_def)
qed

text \<open>
  C3, as the program behaves. The length prefix is packed with the signed format
  \<^verbatim>\<open>'!h'\<close>. For a string whose UTF-8 encoding has at most 32767 bytes the encoder
  returns a 2-byte big-endian byte count followed by the encoding; for a longer encoding
  it raises \<^verbatim>\<open>struct.error\<close> and truncates nothing; a string that has no UTF-8
  encoding (a surrogate) raises the encoding error.
\<close>

theorem shortstr_to_bytes_limit:
  "(encode_utf8 s = Inr bs \<and> length bs \<le> 32767 \<longrightarrow>
      (\<exists>p0 p1. shortstr_to_bytes s = Inr (p0 # p1 # bs) \<and> 256 * unat p0 + unat p1 = length bs)) \<and>
   (encode_utf8 s = Inr bs \<and> 32767 < length bs \<longrightarrow> shortstr_to_bytes s = Inl StructError) \<and>
   (encode_utf8 s = Inl e \<longrightarrow> shortstr_to_bytes s = Inl e)"
proof (intro conjI impI)
  assume a: "encode_utf8 s = Inr bs \<and> length bs \<le> 32767"
  then obtain p0 p1 where p: "short_to_bytes (int (length bs)) = Inr [p0, p1]"
    and n: "256 * unat p0 + unat p1 = length bs"
    using short_prefix by blast
  from a p have "shortstr_to_bytes s = Inr (p0 # p1 # bs)"
    by (simp add: shortstr_to_bytes_def)
  with n show "\<exists>p0 p1. shortstr_to_bytes s = Inr (p0 # p1 # bs) \<and>
      256 * unat p0 + unat p1 = length bs"
    by blast
next
  assume "encode_utf8 s = Inr bs \<and> 32767 < length bs"
  then show "shortstr_to_bytes s = Inl StructError"
    by (simp add: shortstr_to_bytes_def short_to_bytes_overflow)
next
  assume "encode_utf8 s = Inl e"
  then show "shortstr_to_bytes s = Inl e"
    by (simp add: shortstr_to_bytes_def)
qed

text \<open>The string \<^verbatim>\<open>3.0.0\<close>, 40000 letters \<^verbatim>\<open>a\<close>, and a lone surrogate.\<close>

theorem shortstr_to_bytes_limit_witness:
  "shortstr_to_bytes (pystr ''3.0.0'') = Inr [0x00, 0x05, 0x33, 0x2E, 0x30, 0x2E, 0x30] \<and>
   shortstr_to_bytes (replicate 40000 0x61) = Inl StructError \<and>
   shortstr_to_bytes [0xD800] = Inl UnicodeEncodeError"
proof -
  have a: "encode_utf8 (pystr ''3.0.0'') = Inr [0x33, 0x2E, 0x30, 0x2E, 0x30]"
    by (simp add: pystr_def utf8_char_def)
  have b: "encode_utf8 (replicate 40000 0x61) = Inr (replicate 40000 0x61)"
    using encode_utf8_ascii [of "0x61" 40000] by simp
  have c: "encode_utf8 [0xD800] = Inl UnicodeEncodeError"
    by (simp add: utf8_char_def)
  have d: "shortstr_to_bytes (pystr ''3.0.0'') = Inr [0x00, 0x05, 0x33, 0x2E, 0x30, 0x2E, 0x30]"
    by (simp add: shortstr_to_bytes_def a short_to_bytes_def pack_h_def)
  show ?thesis
    using shortstr_to_bytes_limit [of "pystr ''3.0.0''" "[0x33, 0x2E, 0x30, 0x2E, 0x30]"]
      shortstr_to_bytes_limit [of "replicate 40000 0x61" "replicate 40000 0x61"]
      shortstr_to_bytes_limit [of "[0xD800]" _ UnicodeEncodeError]
      a b c d
    by simp
qed

text \<open>
  C4, as the specification words it, is false: the 32768 letters \<^verbatim>\<open>A\<close> have an
  encoding of at most 65535 bytes, and encoding then decoding them gives an error, not
  the string.
\<close>

theorem short_string_round_trip_counterexample:
  "encode_utf8 (replicate 32768 0x41) = Inr (replicate 32768 0x41) \<and>
   length (replicate 32768 (0x41 :: byte)) \<le> 65535 \<and>
   bind (shortstr_to_bytes (replicate 32768 0x41)) decodeShortString = Inl StructError"
proof -
  have b: "encode_utf8 (replicate 32768 0x41) = Inr (replicate 32768 0x41)"
    using encode_utf8_ascii [of "0x41" 32768] by simp
  then show ?thesis
    by (simp add: shortstr_to_bytes_def short_to_bytes_def pack_h_def)
qed

text \<open>
  C4, as the program behaves: for every string whose UTF-8 encoding has at most 32767
  bytes, decoding the short-string encoding gives the string back.
\<close>

theorem short_string_round_trip:
  assumes "encode_utf8 s = Inr bs" "length bs \<le> 32767"
  shows "bind (shortstr_to_bytes s) decodeShortString = Inr s"
proof -
  from assms obtain p0 p1 where p: "short_to_bytes (int (length bs)) = Inr [p0, p1]"
    and n: "256 * unat p0 + unat p1 = length bs"
    using short_prefix by blast
  from assms p have e: "shortstr_to_bytes s = Inr (p0 # p1 # bs)"
    by (simp add: shortstr_to_bytes_def)
  have "decodeShortString (p0 # p1 # bs) = decode_utf8 bs"
    by (simp add: decodeShortString_def n)
  also have "\<dots> = Inr s" by (rule decode_encode_utf8 [OF assms(1)])
  finally show ?thesis by (simp add: e)
qed

text \<open>A string with code points of one, two, three and four bytes.\<close>

theorem short_string_round_trip_witness:
  "bind (shortstr_to_bytes [0x43, 0xE9, 0x20AC, 0x10348]) decodeShortString
     = Inr [0x43, 0xE9, 0x20AC, 0x10348]"
proof -
  have a: "encode_utf8 [0x43, 0xE9, 0x20AC, 0x10348]
      = Inr [0x43, 0xC3, 0xA9, 0xE2, 0x82, 0xAC, 0xF0, 0x90, 0x8D, 0x88]"
    by (simp add: utf8_char_def)
  show ?thesis
    by (rule short_string_round_trip [OF a]) simp
qed

subsection \<open>The code and the message of an Error response\<close>

lemma pack_i_length: "pack_i v = Inr bs \<Longrightarrow> length bs = 4"
  by (auto simp: pack_i_def split: if_splits)

text \<open>
  C8. The body of an Error response is the error code as a signed 32-bit big-endian
  integer, a 2-byte string length, and the message in UTF-8. For every such body the
  display of the response is the display of the frame, then the code in hexadecimal,
  then the message: the code is read from the first four bytes, the two bytes of the
  prefix are skipped, and the rest is decoded.
\<close>

theorem error_response_display:
  assumes "int_to_bytes code = Inr cb" "encode_utf8 message = Inr mb"
  shows "Response_str (Payload_init v f s Error (cb @ [p0, p1] @ mb)) =
           Inr (Payload_str (pystr ''Response'') (Payload_init v f s Error (cb @ [p0, p1] @ mb))
                @ pystr ''\<newline>  code: '' @ hex code @ pystr ''\<newline>  message: '' @ message)"
proof -
  from assms(1) have p: "pack_i code = Inr cb" by (simp add: int_to_bytes_def)
  then have l: "length cb = 4" by (rule pack_i_length)
  have t: "take 4 (cb @ [p0, p1] @ mb) = cb" using l by simp
  have d: "drop 6 (cb @ [p0, p1] @ mb) = mb" using l by simp
  have u: "unpack_i cb = Inr code" by (rule unpack_i_pack_i [OF p])
  have m: "decode_utf8 mb = Inr message" by (rule decode_encode_utf8 [OF assms(2)])
  have i: "opcode (Payload_init v f s Error c) = Error" "body (Payload_init v f s Error c) = c" for c
    by (simp_all add: Payload_init_def)
  show ?thesis
    unfolding Response_str_def i t d u m by simp
qed

text \<open>
  The body \<^verbatim>\<open>00 00 22 00\<close>, \<^verbatim>\<open>00 0C\<close>, \<^verbatim>\<open>Syntax error\<close> displays the code
  \<^verbatim>\<open>0x2200\<close> and the message \<^verbatim>\<open>Syntax error\<close>.
\<close>

theorem error_response_display_witness:
  "Response_str (Payload_init 0x84 0 0 Error
     [0x00, 0x00, 0x22, 0x00, 0x00, 0x0C,
      0x53, 0x79, 0x6E, 0x74, 0x61, 0x78, 0x20, 0x65, 0x72, 0x72, 0x6F, 0x72]) =
   Inr (pystr ''Response:\<newline>  version: 132\<newline>  flags: 0\<newline>  stream: 0\<newline>  opcode: OpCode.Error\<newline>  length: 18\<newline>  code: 0x2200\<newline>  message: Syntax error'')"
proof -
  have a: "int_to_bytes 0x2200 = Inr [0x00, 0x00, 0x22, 0x00]"
    by (simp add: int_to_bytes_def pack_i_def)
  have b: "encode_utf8 (pystr ''Syntax error'')
      = Inr [0x53, 0x79, 0x6E, 0x74, 0x61, 0x78, 0x20, 0x65, 0x72, 0x72, 0x6F, 0x72]"
    by (simp add: pystr_def utf8_char_def)
  have c: "Payload_str (pystr ''Response'')
     (Payload_init 0x84 0 0 Error
       [0x00, 0x00, 0x22, 0x00, 0x00, 0x0C,
        0x53, 0x79, 0x6E, 0x74, 0x61, 0x78, 0x20, 0x65, 0x72, 0x72, 0x6F, 0x72])
     @ pystr ''\<newline>  code: '' @ hex 0x2200 @ pystr ''\<newline>  message: ''
     @ pystr ''Syntax error''
   = pystr ''Response:\<newline>  version: 132\<newline>  flags: 0\<newline>  stream: 0\<newline>  opcode: OpCode.Error\<newline>  length: 18\<newline>  code: 0x2200\<newline>  message: Syntax error''"
    by (simp add: Payload_str_def Payload_init_def str_int_def hex_def hex_digit_def pystr_def)
  from error_response_display [OF a b, of "0x84" 0 0 "0x00" "0x0C"]
  show ?thesis unfolding append_Cons append_Nil c .
qed

end
